theory Spec2Isabelle
  imports Main
begin

section \<open>The chat gateway of \<^verbatim>\<open>backend/main.py\<close>\<close>

text \<open>
  The module is a set of HTTP handlers over one global list, \<^verbatim>\<open>chat_history\<close>, and
  three functions of an external module (\<^verbatim>\<open>query_endpoint\<close>,
  \<^verbatim>\<open>endpoint_supports_feedback\<close>, \<^verbatim>\<open>submit_feedback\<close>). No handler contains an
  \<^verbatim>\<open>await\<close>, so each one runs from its first to its last statement without
  another handler in between: a handler is one step of a state machine.
  Logging is not modelled.
\<close>

subsection \<open>Exceptions\<close>

text \<open>
  \<^verbatim>\<open>HTTPException(status_code, detail)\<close> is the framework's exception; it is a
  subclass of \<^verbatim>\<open>Exception\<close>, so \<^verbatim>\<open>except Exception\<close> catches it. \<open>Exception d\<close>
  stands for any other exception, raised by the external module, tagged \<open>d\<close>.
\<close>

datatype exn = HTTPException (status_code: nat) (detail: string) | Exception string

subsection \<open>Pydantic models and the history entry\<close>

record ChatMessage =
  message :: string
  timestamp :: "string option"

record ChatResponse =
  response_message :: string
  response_timestamp :: string
  response_request_id :: "string option"

text \<open>The dict literal appended to \<^verbatim>\<open>chat_history\<close> (lines 121 to 126).\<close>

record exchange =
  user_message :: string
  assistant_message :: string
  exchange_timestamp :: string
  request_id :: "string option"

text \<open>
  A message of the serving endpoint is a dict with string values; \<^verbatim>\<open>msg.get(k)\<close> is
  \<open>msg k\<close>, with \<open>None\<close> for an absent key (or a null value).
\<close>

type_synonym msg = "string \<rightharpoonup> string"

subsection \<open>Configuration, the external module, the process state\<close>

record config =
  SERVING_ENDPOINT :: string
  ENDPOINT_SUPPORTS_FEEDBACK :: bool

text \<open>Lines 42 to 50: the module's top level, run once when the process starts.\<close>

definition startup :: "string option \<Rightarrow> (string \<Rightarrow> bool) \<Rightarrow> config" where
  "startup getenv endpoint_supports_feedback =
     (let endpoint = (case getenv of
                        None \<Rightarrow> ''ka-981b9343-endpoint''
                      | Some v \<Rightarrow> if v = [] then ''ka-981b9343-endpoint'' else v)
      in \<lparr>SERVING_ENDPOINT = endpoint,
          ENDPOINT_SUPPORTS_FEEDBACK = endpoint_supports_feedback endpoint\<rparr>)"

text \<open>
  What a handler meets outside the module while it runs: the two calls into
  \<^verbatim>\<open>model_serving_utils\<close> (each returns or raises), the clock
  \<^verbatim>\<open>datetime.now().isoformat()\<close>, and \<^verbatim>\<open>str(e)\<close> on an exception.
\<close>

record env =
  query_endpoint :: "string \<Rightarrow> msg list \<Rightarrow> nat \<Rightarrow> bool \<Rightarrow> exn + (msg list \<times> string option)"
  submit_feedback :: "string \<Rightarrow> string \<Rightarrow> int \<Rightarrow> exn option"
  now :: string
  str :: "exn \<Rightarrow> string"

text \<open>The calls a handler makes into the external module, in the order made.\<close>

datatype call =
    Query_endpoint string "msg list" nat bool
  | Submit_feedback string string int

text \<open>
  Python lists are objects: the global \<^verbatim>\<open>chat_history\<close> holds a reference, and
  \<^verbatim>\<open>append\<close> and \<^verbatim>\<open>pop\<close> change the object it refers to, whereas the assignment
  \<^verbatim>\<open>chat_history = []\<close> makes a new object and rebinds the global. \<open>heap\<close> maps
  each address to the list stored there, \<open>fresh\<close> is the next unused address,
  and \<open>calls\<close> records the external calls made so far.
\<close>

type_synonym ref = nat

record app_state =
  heap :: "ref \<Rightarrow> exchange list"
  chat_history :: ref
  fresh :: ref
  calls :: "call list"

text \<open>Line 69: \<^verbatim>\<open>chat_history = []\<close>.\<close>

definition init_state :: app_state where
  "init_state = \<lparr>heap = (\<lambda>_. []), chat_history = 0, fresh = 1, calls = []\<rparr>"

text \<open>The records the store holds: the list the global refers to.\<close>

definition store :: "app_state \<Rightarrow> exchange list" where
  "store s = heap s (chat_history s)"

subsection \<open>\<^verbatim>\<open>POST /api/chat\<close>\<close>

text \<open>Line 106: the test of the loop.\<close>

definition is_assistant_reply :: "msg \<Rightarrow> bool" where
  "is_assistant_reply m \<longleftrightarrow>
     m ''role'' = Some ''assistant'' \<and> (case m ''content'' of None \<Rightarrow> False | Some c \<Rightarrow> c \<noteq> [])"

text \<open>
  Lines 105 to 108: the \<^verbatim>\<open>for\<close> loop with its \<^verbatim>\<open>break\<close>; the second argument is
  \<^verbatim>\<open>assistant_message\<close>.
\<close>

fun assistant_message_loop :: "msg list \<Rightarrow> string \<Rightarrow> string" where
  "assistant_message_loop [] am = am"
| "assistant_message_loop (m # ms) am =
     (if is_assistant_reply m
      then (case m ''content'' of Some c \<Rightarrow> c | None \<Rightarrow> am)
      else assistant_message_loop ms am)"

definition fallback_message :: string where
  "fallback_message = ''I'm sorry, I couldn't generate a response. Please try again.''"

definition exchange_of :: "ChatMessage \<Rightarrow> ChatResponse \<Rightarrow> exchange" where
  "exchange_of m response =
     \<lparr>user_message = message m,
      assistant_message = response_message response,
      exchange_timestamp = response_timestamp response,
      request_id = response_request_id response\<rparr>"

text \<open>\<^verbatim>\<open>chat_history.append(x)\<close> and \<^verbatim>\<open>chat_history.pop(0)\<close>: in place.\<close>

definition list_append :: "exchange \<Rightarrow> app_state \<Rightarrow> app_state" where
  "list_append x s = s\<lparr>heap := (heap s)(chat_history s := heap s (chat_history s) @ [x])\<rparr>"

definition list_pop0 :: "app_state \<Rightarrow> app_state" where
  "list_pop0 s = s\<lparr>heap := (heap s)(chat_history s := tl (heap s (chat_history s)))\<rparr>"

text \<open>Lines 90 to 93, and the call of lines 96 to 101.\<close>

definition input_messages :: "ChatMessage \<Rightarrow> msg list" where
  "input_messages m = [[''role'' \<mapsto> ''user'', ''content'' \<mapsto> message m]]"

definition inference_call :: "config \<Rightarrow> env \<Rightarrow> ChatMessage \<Rightarrow> exn + (msg list \<times> string option)" where
  "inference_call cfg e m =
     query_endpoint e (SERVING_ENDPOINT cfg) (input_messages m) 400 (ENDPOINT_SUPPORTS_FEEDBACK cfg)"

text \<open>
  Lines 103 to 118: the loop from the empty string, the fallback when it stays empty,
  and the response with the server's clock.
\<close>

definition chat_response :: "env \<Rightarrow> msg list \<Rightarrow> string option \<Rightarrow> ChatResponse" where
  "chat_response e response_messages rid =
     (let am = assistant_message_loop response_messages [];
          am' = (if am = [] then fallback_message else am)
      in \<lparr>response_message = am', response_timestamp = now e, response_request_id = rid\<rparr>)"

text \<open>
  The handler. The \<^verbatim>\<open>try\<close> body can raise only in \<^verbatim>\<open>query_endpoint\<close>; the
  \<^verbatim>\<open>except Exception\<close> clause turns that into a 500.
\<close>

definition chat :: "config \<Rightarrow> env \<Rightarrow> ChatMessage \<Rightarrow> app_state \<Rightarrow> (exn + ChatResponse) \<times> app_state" where
  "chat cfg e m s =
     (let s1 = s\<lparr>calls := calls s @ [Query_endpoint (SERVING_ENDPOINT cfg) (input_messages m) 400
                                     (ENDPOINT_SUPPORTS_FEEDBACK cfg)]\<rparr>
      in case inference_call cfg e m of
           Inl ex \<Rightarrow>
             (Inl (HTTPException 500 (''Error processing message: '' @ str e ex)), s1)
         | Inr (response_messages, rid) \<Rightarrow>
             (let response = chat_response e response_messages rid;
                  s2 = list_append (exchange_of m response) s1;
                  s3 = (if length (store s2) > 100 then list_pop0 s2 else s2)
              in (Inr response, s3)))"

subsection \<open>\<^verbatim>\<open>GET\<close> and \<^verbatim>\<open>DELETE /api/chat/history\<close>\<close>

text \<open>
  \<^verbatim>\<open>return {"history": chat_history}\<close>: the dict holds the reference that the
  global holds, not a copy of the list.
\<close>

definition get_chat_history :: "app_state \<Rightarrow> ref" where
  "get_chat_history s = chat_history s"

text \<open>\<^verbatim>\<open>global chat_history; chat_history = []\<close>: a new list object.\<close>

definition clear_chat_history :: "app_state \<Rightarrow> string \<times> app_state" where
  "clear_chat_history s =
     (''Chat history cleared'',
      s\<lparr>heap := (heap s)(fresh s := []), chat_history := fresh s, fresh := Suc (fresh s)\<rparr>)"

subsection \<open>\<^verbatim>\<open>POST /api/feedback\<close>\<close>

text \<open>
  The \<^verbatim>\<open>try\<close> body first, then the \<^verbatim>\<open>except Exception as e\<close> clause applied to
  whatever the body raised, the 400 of its first statement included.
\<close>

definition submit_chat_feedback_try :: "config \<Rightarrow> env \<Rightarrow> string \<Rightarrow> int \<Rightarrow> app_state \<Rightarrow> (exn + string) \<times> app_state" where
  "submit_chat_feedback_try cfg e rid rating s =
     (if \<not> ENDPOINT_SUPPORTS_FEEDBACK cfg
      then (Inl (HTTPException 400 ''Feedback not supported by this endpoint''), s)
      else (let s1 = s\<lparr>calls := calls s @ [Submit_feedback (SERVING_ENDPOINT cfg) rid rating]\<rparr>
            in case submit_feedback e (SERVING_ENDPOINT cfg) rid rating of
                 Some ex \<Rightarrow> (Inl ex, s1)
               | None \<Rightarrow> (Inr ''Feedback submitted successfully'', s1)))"

definition submit_chat_feedback :: "config \<Rightarrow> env \<Rightarrow> string \<Rightarrow> int \<Rightarrow> app_state \<Rightarrow> (exn + string) \<times> app_state" where
  "submit_chat_feedback cfg e rid rating s =
     (case submit_chat_feedback_try cfg e rid rating s of
        (Inl ex, s') \<Rightarrow> (Inl (HTTPException 500 (''Error submitting feedback: '' @ str e ex)), s')
      | (Inr r, s') \<Rightarrow> (Inr r, s'))"

subsection \<open>The HTTP surface as a state machine\<close>

datatype request =
    Chat env ChatMessage
  | History
  | Clear
  | Feedback env string int

text \<open>
  What the client of an endpoint receives is the body the router encodes from the
  value the handler returned. The router encodes it when the handler returns, before
  any other handler runs: the body of \<^verbatim>\<open>GET /api/chat/history\<close> holds the records
  that the returned list holds at that moment, as values; no reference leaves the
  process.
\<close>

datatype reply =
    Chat_reply ChatResponse
  | History_reply "exchange list"
  | Message_reply string

fun handle_request :: "config \<Rightarrow> request \<Rightarrow> app_state \<Rightarrow> (exn + reply) \<times> app_state" where
  "handle_request cfg (Chat e m) s = apfst (map_sum id Chat_reply) (chat cfg e m s)"
| "handle_request cfg History s = (Inr (History_reply (heap s (get_chat_history s))), s)"
| "handle_request cfg Clear s = apfst (Inr \<circ> Message_reply) (clear_chat_history s)"
| "handle_request cfg (Feedback e rid rating) s =
     apfst (map_sum id Message_reply) (submit_chat_feedback cfg e rid rating s)"

fun run :: "config \<Rightarrow> request list \<Rightarrow> app_state \<Rightarrow> app_state" where
  "run cfg [] s = s"
| "run cfg (r # rs) s = run cfg rs (snd (handle_request cfg r s))"

text \<open>The answers to a sequence of requests, in the order of the requests.\<close>

fun responses :: "config \<Rightarrow> request list \<Rightarrow> app_state \<Rightarrow> (exn + reply) list" where
  "responses cfg [] s = []"
| "responses cfg (r # rs) s =
     fst (handle_request cfg r s) # responses cfg rs (snd (handle_request cfg r s))"

text \<open>A sequence of chat calls, with the response each caller got.\<close>

fun chats :: "config \<Rightarrow> (env \<times> ChatMessage) list \<Rightarrow> app_state \<Rightarrow> (exn + ChatResponse) list \<times> app_state" where
  "chats cfg [] s = ([], s)"
| "chats cfg ((e, m) # rs) s =
     (case chat cfg e m s of (r, s') \<Rightarrow> apfst ((#) r) (chats cfg rs s'))"

subsection \<open>Sequences of calls, and sample values\<close>

text \<open>
  The exchanges a sequence of chat calls completed, in the order the calls returned:
  a call that failed completed none.
\<close>

fun completed :: "(env \<times> ChatMessage) list \<Rightarrow> (exn + ChatResponse) list \<Rightarrow> exchange list" where
  "completed ((e, m) # rs) (Inr response # ps) = exchange_of m response # completed rs ps"
| "completed ((e, m) # rs) (Inl ex # ps) = completed rs ps"
| "completed _ _ = []"

definition cfg_off :: config where
  "cfg_off = \<lparr>SERVING_ENDPOINT = ''ka-981b9343-endpoint'', ENDPOINT_SUPPORTS_FEEDBACK = False\<rparr>"

definition env_hi :: env where
  "env_hi = \<lparr>query_endpoint = (\<lambda>_ _ _ _.
                 Inr ([[''role'' \<mapsto> ''assistant'', ''content'' \<mapsto> ''hi there'']], Some ''r1'')),
             submit_feedback = (\<lambda>_ _ _. None), now = ''2024-01-01T00:00:00'',
             str = (\<lambda>_. ''boom'')\<rparr>"

definition env_down :: env where
  "env_down = \<lparr>query_endpoint = (\<lambda>_ _ _ _. Inl (Exception ''timeout'')),
               submit_feedback = (\<lambda>_ _ _. Some (Exception ''timeout'')),
               now = ''2024-01-01T00:00:00'', str = (\<lambda>_. ''timeout'')\<rparr>"

definition hello :: ChatMessage where
  "hello = \<lparr>message = ''hello'', timestamp = None\<rparr>"

definition old_exchange :: exchange where
  "old_exchange = \<lparr>user_message = ''old'', assistant_message = ''older'',
                    exchange_timestamp = ''2023-12-31T00:00:00'', request_id = None\<rparr>"

definition hi_exchange :: exchange where
  "hi_exchange = \<lparr>user_message = ''hello'', assistant_message = ''hi there'',
                   exchange_timestamp = ''2024-01-01T00:00:00'', request_id = Some ''r1''\<rparr>"

text \<open>A state whose store is full: one hundred exchanges, the oldest first.\<close>

definition full_state :: app_state where
  "full_state = \<lparr>heap = (\<lambda>_. []) (0 := old_exchange # replicate 99 hi_exchange),
                  chat_history = 0, fresh = 1, calls = []\<rparr>"

text \<open>
  A reply with two assistant entries after an empty one, and a reply with none that
  qualifies.
\<close>

definition two_assistants :: "msg list" where
  "two_assistants =
     [[''role'' \<mapsto> ''system'', ''content'' \<mapsto> ''be brief''],
      [''role'' \<mapsto> ''assistant'', ''content'' \<mapsto> ''''],
      [''role'' \<mapsto> ''assistant'', ''content'' \<mapsto> ''first''],
      [''role'' \<mapsto> ''assistant'', ''content'' \<mapsto> ''second'']]"

definition env_two :: env where
  "env_two = \<lparr>query_endpoint = (\<lambda>_ _ _ _. Inr (two_assistants, None)),
              submit_feedback = (\<lambda>_ _ _. None), now = ''2024-01-02T00:00:00'',
              str = (\<lambda>_. ''boom'')\<rparr>"

definition first_exchange :: exchange where
  "first_exchange = \<lparr>user_message = ''hello'', assistant_message = ''first'',
                      exchange_timestamp = ''2024-01-02T00:00:00'', request_id = None\<rparr>"

definition no_assistant :: "msg list" where
  "no_assistant =
     [[''role'' \<mapsto> ''system'', ''content'' \<mapsto> ''be brief''],
      [''role'' \<mapsto> ''assistant'', ''content'' \<mapsto> ''''],
      [''role'' \<mapsto> ''assistant''],
      [''content'' \<mapsto> ''orphan'']]"

definition env_mute :: env where
  "env_mute = \<lparr>query_endpoint = (\<lambda>_ _ _ _. Inr (no_assistant, Some ''r2'')),
               submit_feedback = (\<lambda>_ _ _. None), now = ''2024-01-01T00:00:00'',
               str = (\<lambda>_. ''boom'')\<rparr>"

section \<open>Facts about the handlers\<close>

subsection \<open>The store under each statement and each handler\<close>

lemma store_simps:
  "store (s\<lparr>calls := c\<rparr>) = store s"
  "store (list_append x s) = store s @ [x]"
  "store (list_pop0 s) = tl (store s)"
  by (simp_all add: store_def list_append_def list_pop0_def)

lemma chat_history_simps:
  "chat_history (list_append x s) = chat_history s"
  "chat_history (list_pop0 s) = chat_history s"
  "fresh (list_append x s) = fresh s"
  "fresh (list_pop0 s) = fresh s"
  "calls (list_append x s) = calls s"
  "calls (list_pop0 s) = calls s"
  by (simp_all add: list_append_def list_pop0_def)

lemma heap_other:
  "r \<noteq> chat_history s \<Longrightarrow> heap (list_append x s) r = heap s r"
  "r \<noteq> chat_history s \<Longrightarrow> heap (list_pop0 s) r = heap s r"
  by (simp_all add: list_append_def list_pop0_def)

lemma chat_failure:
  assumes "inference_call cfg e m = Inl ex"
  shows "chat cfg e m s =
    (Inl (HTTPException 500 (''Error processing message: '' @ str e ex)),
     s\<lparr>calls := calls s @ [Query_endpoint (SERVING_ENDPOINT cfg) (input_messages m) 400
                                     (ENDPOINT_SUPPORTS_FEEDBACK cfg)]\<rparr>)"
  using assms by (simp add: chat_def)

lemma chat_success_fst:
  assumes "inference_call cfg e m = Inr (msgs, rid)"
  shows "fst (chat cfg e m s) = Inr (chat_response e msgs rid)"
  using assms by (simp add: chat_def Let_def)

lemma chat_success_store:
  assumes "inference_call cfg e m = Inr (msgs, rid)"
  shows "store (snd (chat cfg e m s)) =
         (if length (store s) < 100 then store s @ [exchange_of m (chat_response e msgs rid)]
          else tl (store s @ [exchange_of m (chat_response e msgs rid)]))"
  using assms by (simp add: chat_def Let_def store_simps)

lemma chat_frame:
  "chat_history (snd (chat cfg e m s)) = chat_history s"
  "fresh (snd (chat cfg e m s)) = fresh s"
  "r \<noteq> chat_history s \<Longrightarrow> heap (snd (chat cfg e m s)) r = heap s r"
  by (simp_all add: chat_def Let_def chat_history_simps heap_other split: sum.split prod.split)

lemma chat_cases:
  obtains (failure) ex where "inference_call cfg e m = Inl ex"
  | (success) msgs rid where "inference_call cfg e m = Inr (msgs, rid)"
  by (cases "inference_call cfg e m") auto

lemma chat_success_last:
  assumes "inference_call cfg e m = Inr (msgs, rid)"
  shows "store (snd (chat cfg e m s)) \<noteq> []
       \<and> last (store (snd (chat cfg e m s))) = exchange_of m (chat_response e msgs rid)"
proof (cases "length (store s) < 100")
  case True
  then show ?thesis by (simp add: chat_success_store [OF assms])
next
  case False
  then have "store s \<noteq> []" by auto
  then have "tl (store s @ [exchange_of m (chat_response e msgs rid)])
           = tl (store s) @ [exchange_of m (chat_response e msgs rid)]" by simp
  with False show ?thesis by (simp add: chat_success_store [OF assms])
qed

lemma chat_bounded:
  assumes "length (store s) \<le> 100"
  shows "length (store (snd (chat cfg e m s))) \<le> 100"
proof (cases rule: chat_cases [of cfg e m])
  case (failure ex)
  with assms show ?thesis by (simp add: chat_failure store_simps)
next
  case (success msgs rid)
  with assms show ?thesis by (simp add: chat_success_store)
qed

lemma feedback_frame:
  "heap (snd (submit_chat_feedback cfg e rid rating s)) = heap s"
  "chat_history (snd (submit_chat_feedback cfg e rid rating s)) = chat_history s"
  "fresh (snd (submit_chat_feedback cfg e rid rating s)) = fresh s"
  by (simp_all add: submit_chat_feedback_def submit_chat_feedback_try_def Let_def split: option.split)

lemma feedback_store: "store (snd (submit_chat_feedback cfg e rid rating s)) = store s"
  by (simp add: store_def feedback_frame)

lemma clear_store: "store (snd (clear_chat_history s)) = []"
  by (simp add: clear_chat_history_def store_def)

lemma handle_request_bounded:
  assumes "length (store s) \<le> 100"
  shows "length (store (snd (handle_request cfg q s))) \<le> 100"
  using assms by (cases q) (simp_all add: chat_bounded feedback_store clear_store)

lemma run_bounded:
  "length (store s) \<le> 100 \<Longrightarrow> length (store (run cfg qs s)) \<le> 100"
  by (induction qs arbitrary: s) (simp_all add: handle_request_bounded)

lemma init_store: "store init_state = []"
  by (simp add: store_def init_state_def)

lemma run_append: "run cfg (pre @ post) s = run cfg post (run cfg pre s)"
  by (induction pre arbitrary: s) simp_all

lemma responses_length: "length (responses cfg qs s) = length qs"
  by (induction qs arbitrary: s) simp_all

lemma responses_append:
  "responses cfg (pre @ post) s = responses cfg pre s @ responses cfg post (run cfg pre s)"
  by (induction pre arbitrary: s) simp_all

subsection \<open>Sequences of chat calls\<close>

lemma chats_Cons:
  "fst (chats cfg ((e, m) # rs) s) = fst (chat cfg e m s) # fst (chats cfg rs (snd (chat cfg e m s)))"
  "snd (chats cfg ((e, m) # rs) s) = snd (chats cfg rs (snd (chat cfg e m s)))"
  by (simp_all split: prod.split)

lemma chats_length: "length (fst (chats cfg rs s)) = length rs"
proof (induction rs arbitrary: s)
  case Nil
  then show ?case by simp
next
  case (Cons r rs)
  then show ?case by (cases r) (simp add: chats_Cons del: chats.simps)
qed

lemma chats_chat_history: "chat_history (snd (chats cfg rs s)) = chat_history s"
proof (induction rs arbitrary: s)
  case Nil
  then show ?case by simp
next
  case (Cons r rs)
  then show ?case by (cases r) (simp add: chats_Cons chat_frame del: chats.simps)
qed

lemma drop_window_snoc:
  assumes "length xs \<le> 100"
  shows "(let ys = (if length xs < 100 then xs @ [x] else tl (xs @ [x])) @ zs
          in drop (length ys - 100) ys)
       = (let ys = xs @ x # zs in drop (length ys - 100) ys)"
proof (cases "length xs < 100")
  case True
  then show ?thesis by simp
next
  case False
  with assms have len: "length xs = 100" by simp
  then have ne: "xs \<noteq> []" by auto
  have "drop (length zs) (tl xs @ x # zs) = drop (Suc (length zs)) (xs @ x # zs)"
    using ne by (cases xs) simp_all
  with len ne show ?thesis by (simp add: Let_def)
qed

lemma chats_store:
  assumes "length (store s) \<le> 100"
  shows "store (snd (chats cfg rs s)) =
           (let ys = store s @ completed rs (fst (chats cfg rs s))
            in drop (length ys - 100) ys)"
  using assms
proof (induction rs arbitrary: s)
  case Nil
  then show ?case by simp
next
  case (Cons r rs)
  obtain e m where r: "r = (e, m)" by (cases r)
  let ?s' = "snd (chat cfg e m s)"
  have b: "length (store ?s') \<le> 100"
    by (rule chat_bounded [OF Cons.prems])
  note IH = Cons.IH [OF b]
  show ?case
  proof (cases rule: chat_cases [of cfg e m])
    case (failure ex)
    then have "fst (chat cfg e m s) = Inl (HTTPException 500 (''Error processing message: '' @ str e ex))"
      and "store ?s' = store s"
      by (simp_all add: chat_failure store_simps)
    with IH show ?thesis by (simp add: r chats_Cons del: chats.simps)
  next
    case (success msgs rid)
    let ?x = "exchange_of m (chat_response e msgs rid)"
    have p: "fst (chat cfg e m s) = Inr (chat_response e msgs rid)"
      by (rule chat_success_fst [OF success])
    have st: "store ?s' = (if length (store s) < 100 then store s @ [?x]
          else tl (store s @ [?x]))"
      by (rule chat_success_store [OF success])
    show ?thesis
      using IH drop_window_snoc [OF Cons.prems, of ?x "completed rs (fst (chats cfg rs ?s'))"]
      by (simp add: r chats_Cons p st Let_def del: chats.simps)
  qed
qed

lemma completed_all_success:
  assumes "length ps = length rs" "\<forall>p \<in> set ps. \<exists>response. p = Inr response"
  shows "completed rs ps = map (\<lambda>((e, m), p). exchange_of m (projr p)) (zip rs ps)"
  using assms
proof (induction ps rs rule: list_induct2)
  case Nil
  then show ?case by simp
next
  case (Cons p ps r rs)
  obtain e m where r: "r = (e, m)" by (cases r)
  from Cons.prems obtain response where p: "p = Inr response" by auto
  from Cons show ?case by (simp add: r p)
qed


subsection \<open>The loop, and the sample calls\<close>

lemma startup_flag:
  "ENDPOINT_SUPPORTS_FEEDBACK (startup getenv f) = f (SERVING_ENDPOINT (startup getenv f))"
  by (simp add: startup_def Let_def)

lemma loop_skips:
  assumes "\<forall>b \<in> set before. \<not> is_assistant_reply b"
  shows "assistant_message_loop (before @ rest) am = assistant_message_loop rest am"
  using assms by (induction before) simp_all

lemma loop_none:
  assumes "\<forall>a \<in> set msgs. \<not> is_assistant_reply a"
  shows "assistant_message_loop msgs am = am"
  using assms by (induction msgs) simp_all

lemma chat_hi: 
  "inference_call cfg env_hi hello =
     Inr ([[''role'' \<mapsto> ''assistant'', ''content'' \<mapsto> ''hi there'']], Some ''r1'')"
  "exchange_of hello (chat_response env_hi
     [[''role'' \<mapsto> ''assistant'', ''content'' \<mapsto> ''hi there'']] (Some ''r1'')) = hi_exchange"
  by (simp_all add: inference_call_def env_hi_def exchange_of_def chat_response_def
      is_assistant_reply_def hi_exchange_def hello_def)

lemma chat_two:
  "inference_call cfg env_two hello = Inr (two_assistants, None)"
  "exchange_of hello (chat_response env_two two_assistants None) = first_exchange"
  by (simp_all add: inference_call_def env_two_def exchange_of_def chat_response_def
      is_assistant_reply_def first_exchange_def hello_def two_assistants_def)

lemma chats_all_success:
  assumes "\<forall>(e, m) \<in> set rs. \<exists>msgs rid. inference_call cfg e m = Inr (msgs, rid)"
  shows "\<forall>p \<in> set (fst (chats cfg rs s)). \<exists>response. p = Inr response"
  using assms
proof (induction rs arbitrary: s)
  case Nil
  then show ?case by simp
next
  case (Cons r rs)
  obtain e m where r: "r = (e, m)" by (cases r)
  from Cons.prems obtain msgs rid where ok: "inference_call cfg e m = Inr (msgs, rid)"
    by (auto simp: r)
  from Cons.prems have "\<forall>(e, m) \<in> set rs. \<exists>msgs rid. inference_call cfg e m = Inr (msgs, rid)"
    by simp
  from Cons.IH [OF this] show ?case
    by (simp add: r chats_Cons chat_success_fst [OF ok] del: chats.simps(2))
qed

section \<open>The claims\<close>

subsection \<open>Feedback on an endpoint without feedback support\<close>

lemma feedback_supported_calls:
  "calls (snd (submit_chat_feedback (cfg\<lparr>ENDPOINT_SUPPORTS_FEEDBACK := True\<rparr>) e rid rating s))
     = calls s @ [Submit_feedback (SERVING_ENDPOINT cfg) rid rating]"
  by (simp add: submit_chat_feedback_def submit_chat_feedback_try_def Let_def split: option.split)

text \<open>
  Claim C1: while the feedback-support flag is false, \<^verbatim>\<open>POST /api/feedback\<close> fails
  with a 400. The handler does raise \<^verbatim>\<open>HTTPException(status_code=400)\<close>, but inside
  its own \<^verbatim>\<open>try\<close>: the \<^verbatim>\<open>except Exception\<close> clause catches it and raises a 500
  whose detail quotes the 400. For every request id, rating and state the answer is
  that 500, and never a 400.
\<close>

theorem feedback_unsupported_answers_500:
  "fst (submit_chat_feedback (cfg\<lparr>ENDPOINT_SUPPORTS_FEEDBACK := False\<rparr>) e rid rating s) =
     Inl (HTTPException 500 (''Error submitting feedback: '' @
            str e (HTTPException 400 ''Feedback not supported by this endpoint'')))
   \<and> (\<forall>d. fst (submit_chat_feedback (cfg\<lparr>ENDPOINT_SUPPORTS_FEEDBACK := False\<rparr>) e rid rating s)
          \<noteq> Inl (HTTPException 400 d))"
  by (simp add: submit_chat_feedback_def submit_chat_feedback_try_def)

text \<open>
  Claim C7: while the feedback-support flag is false, the handler makes no call to
  \<^verbatim>\<open>submit_feedback\<close>, whatever the request id and the rating: the state comes back
  as it was, the record of external calls included, and the outcome does not depend
  on what \<^verbatim>\<open>submit_feedback\<close> would have done. (With the flag true the call is
  recorded: \<open>feedback_supported_calls\<close>.)
\<close>

theorem feedback_unsupported_makes_no_call:
  "snd (submit_chat_feedback (cfg\<lparr>ENDPOINT_SUPPORTS_FEEDBACK := False\<rparr>) e rid rating s) = s
   \<and> calls (snd (submit_chat_feedback (cfg\<lparr>ENDPOINT_SUPPORTS_FEEDBACK := False\<rparr>) e rid rating s))
       = calls s
   \<and> submit_chat_feedback (cfg\<lparr>ENDPOINT_SUPPORTS_FEEDBACK := False\<rparr>)
        (e\<lparr>submit_feedback := f\<rparr>) rid rating s
       = submit_chat_feedback (cfg\<lparr>ENDPOINT_SUPPORTS_FEEDBACK := False\<rparr>) e rid rating s"
  by (simp add: submit_chat_feedback_def submit_chat_feedback_try_def)

subsection \<open>A failing inference call\<close>

text \<open>
  Claim C6: when \<^verbatim>\<open>query_endpoint\<close> raises, \<^verbatim>\<open>POST /api/chat\<close> answers 500 with the
  detail \<^verbatim>\<open>Error processing message: \<close> followed by \<^verbatim>\<open>str(e)\<close>, and the history is
  untouched: neither the list object nor the global changes.
\<close>

theorem chat_inference_failure:
  assumes "inference_call cfg e m = Inl ex"
  shows "fst (chat cfg e m s) =
           Inl (HTTPException 500 (''Error processing message: '' @ str e ex))
       \<and> store (snd (chat cfg e m s)) = store s
       \<and> heap (snd (chat cfg e m s)) = heap s
       \<and> chat_history (snd (chat cfg e m s)) = chat_history s"
  by (simp add: chat_failure [OF assms] store_simps)

theorem chat_inference_failure_witness:
  "inference_call cfg_off env_down hello = Inl (Exception ''timeout'')
   \<and> fst (chat cfg_off env_down hello full_state) =
       Inl (HTTPException 500 ''Error processing message: timeout'')
   \<and> store (snd (chat cfg_off env_down hello full_state)) = old_exchange # replicate 99 hi_exchange"
proof -
  have h: "inference_call cfg_off env_down hello = Inl (Exception ''timeout'')"
    by (simp add: inference_call_def env_down_def)
  show ?thesis
    using h chat_inference_failure [OF h, of full_state]
    by (simp add: env_down_def store_def full_state_def)
qed

subsection \<open>The timestamp of the request body\<close>

text \<open>
  Claim C10: the optional \<^verbatim>\<open>timestamp\<close> of the request body is never read. Two
  requests that differ only there get the same response and leave the same state,
  and the timestamp returned and stored is the server's clock at the time the
  response is built.
\<close>

theorem chat_ignores_client_timestamp:
  "chat cfg e (m\<lparr>timestamp := t\<rparr>) s = chat cfg e m s
   \<and> (\<forall>response. fst (chat cfg e m s) = Inr response \<longrightarrow>
         response_timestamp response = now e
       \<and> exchange_timestamp (last (store (snd (chat cfg e m s)))) = now e)"
proof -
  have same_call: "inference_call cfg e (m\<lparr>timestamp := t\<rparr>) = inference_call cfg e m"
    and same_input: "input_messages (m\<lparr>timestamp := t\<rparr>) = input_messages m"
    and same_entry: "exchange_of (m\<lparr>timestamp := t\<rparr>) r = exchange_of m r" for r
    by (simp_all add: inference_call_def input_messages_def exchange_of_def)
  have "chat cfg e (m\<lparr>timestamp := t\<rparr>) s = chat cfg e m s"
    by (cases "inference_call cfg e m")
       (auto simp add: chat_def same_call same_input same_entry)
  moreover have "response_timestamp response = now e
       \<and> exchange_timestamp (last (store (snd (chat cfg e m s)))) = now e"
    if ok: "fst (chat cfg e m s) = Inr response" for response
  proof (cases rule: chat_cases [of cfg e m])
    case (failure ex)
    with ok show ?thesis by (simp add: chat_failure)
  next
    case (success msgs rid)
    with ok have "response = chat_response e msgs rid"
      by (simp add: chat_success_fst)
    then show ?thesis
      using chat_success_last [OF success, of s]
      by (simp add: chat_response_def exchange_of_def Let_def)
  qed
  ultimately show ?thesis by blast
qed

theorem chat_ignores_client_timestamp_witness:
  "chat cfg_off env_hi (hello\<lparr>timestamp := Some ''1999-01-01T00:00:00''\<rparr>) init_state
     = chat cfg_off env_hi hello init_state
   \<and> fst (chat cfg_off env_hi hello init_state) =
       Inr \<lparr>response_message = ''hi there'', response_timestamp = ''2024-01-01T00:00:00'',
            response_request_id = Some ''r1''\<rparr>
   \<and> exchange_timestamp (last (store (snd (chat cfg_off env_hi hello init_state))))
       = ''2024-01-01T00:00:00''"
proof -
  have ok: "fst (chat cfg_off env_hi hello init_state) =
       Inr \<lparr>response_message = ''hi there'', response_timestamp = ''2024-01-01T00:00:00'',
            response_request_id = Some ''r1''\<rparr>"
    by (simp add: chat_def inference_call_def env_hi_def chat_response_def is_assistant_reply_def Let_def)
  show ?thesis
    using ok chat_ignores_client_timestamp [where cfg = cfg_off and e = env_hi and m = hello
            and t = "Some ''1999-01-01T00:00:00''" and s = init_state]
    by (simp add: env_hi_def)
qed


subsection \<open>Which entry of the reply becomes the assistant message\<close>

text \<open>
  Claim C4: from the list the inference call returns, the handler takes the content
  of the first entry, in list order, whose role is \<^verbatim>\<open>assistant\<close> and whose content
  is not empty, whatever the entries after it hold (other assistant entries included).
  That content is the message of the response and of the record stored last.
\<close>

theorem chat_selects_first_assistant:
  assumes "inference_call cfg e m = Inr (before @ a # after, rid)"
    and "\<forall>b \<in> set before. \<not> is_assistant_reply b"
    and "a ''role'' = Some ''assistant''" and "a ''content'' = Some c" and "c \<noteq> []"
  shows "\<exists>response. fst (chat cfg e m s) = Inr response
       \<and> response_message response = c
       \<and> assistant_message (last (store (snd (chat cfg e m s)))) = c"
proof -
  have a: "is_assistant_reply a"
    using assms(3-5) by (simp add: is_assistant_reply_def)
  have "assistant_message_loop (before @ a # after) [] = assistant_message_loop (a # after) []"
    by (rule loop_skips [OF assms(2)])
  also have "\<dots> = c"
    using a assms(4) by simp
  finally have sel: "assistant_message_loop (before @ a # after) [] = c" .
  have msg: "response_message (chat_response e (before @ a # after) rid) = c"
    using sel assms(5) by (simp add: chat_response_def Let_def)
  show ?thesis
    using chat_success_fst [OF assms(1), of s] chat_success_last [OF assms(1), of s] msg
    by (simp add: exchange_of_def)
qed

theorem chat_selects_first_assistant_witness:
  "\<exists>response. fst (chat cfg_off env_two hello init_state) = Inr response
       \<and> response_message response = ''first''
       \<and> assistant_message (last (store (snd (chat cfg_off env_two hello init_state)))) = ''first''"
proof -
  let ?before = "[[''role'' \<mapsto> ''system'', ''content'' \<mapsto> ''be brief''],
      [''role'' \<mapsto> ''assistant'', ''content'' \<mapsto> '''']] :: msg list"
  let ?a = "[''role'' \<mapsto> ''assistant'', ''content'' \<mapsto> ''first''] :: msg"
  let ?after = "[[''role'' \<mapsto> ''assistant'', ''content'' \<mapsto> ''second'']] :: msg list"
  have h1: "inference_call cfg_off env_two hello = Inr (?before @ ?a # ?after, None)"
    by (simp add: inference_call_def env_two_def two_assistants_def)
  have h2: "\<forall>b \<in> set ?before. \<not> is_assistant_reply b"
    by (simp add: is_assistant_reply_def)
  have h3: "?a ''role'' = Some ''assistant''" and h4: "?a ''content'' = Some ''first''"
    and h5: "''first'' \<noteq> []"
    by simp_all
  show ?thesis
    by (rule chat_selects_first_assistant [OF h1 h2 h3 h4 h5])
qed

text \<open>
  Claim C5: when no entry of the returned list has the role \<^verbatim>\<open>assistant\<close> and a
  content that is not empty, the message returned and the message stored are the
  fixed fallback sentence, character for character.
\<close>

theorem chat_falls_back:
  assumes "inference_call cfg e m = Inr (msgs, rid)"
    and "\<forall>a \<in> set msgs. \<not> is_assistant_reply a"
  shows "\<exists>response. fst (chat cfg e m s) = Inr response
       \<and> response_message response = ''I'm sorry, I couldn't generate a response. Please try again.''
       \<and> assistant_message (last (store (snd (chat cfg e m s))))
           = ''I'm sorry, I couldn't generate a response. Please try again.''"
proof -
  have "assistant_message_loop msgs [] = []"
    by (rule loop_none [OF assms(2)])
  then have msg: "response_message (chat_response e msgs rid) = fallback_message"
    by (simp add: chat_response_def)
  show ?thesis
    using chat_success_fst [OF assms(1), of s] chat_success_last [OF assms(1), of s] msg
    by (simp add: exchange_of_def fallback_message_def)
qed

theorem chat_falls_back_witness:
  "\<exists>response. fst (chat cfg_off env_mute hello init_state) = Inr response
       \<and> response_message response = ''I'm sorry, I couldn't generate a response. Please try again.''
       \<and> assistant_message (last (store (snd (chat cfg_off env_mute hello init_state))))
           = ''I'm sorry, I couldn't generate a response. Please try again.''"
proof -
  have h1: "inference_call cfg_off env_mute hello = Inr (no_assistant, Some ''r2'')"
    by (simp add: inference_call_def env_mute_def)
  have h2: "\<forall>a \<in> set no_assistant. \<not> is_assistant_reply a"
    by (simp add: no_assistant_def is_assistant_reply_def)
  show ?thesis
    by (rule chat_falls_back [OF h1 h2])
qed

subsection \<open>The bounded history\<close>

text \<open>
  Claim C2: the store never holds more than 100 records. It holds at most 100 in
  every state reached from the initial one by any requests, every handler keeps the
  bound, a successful chat call puts its record at the end, and when the store is
  full that call removes exactly the record at the front; reading the history leaves
  the store as it is and clearing it leaves it empty. (The list is 101 long between
  \<^verbatim>\<open>append\<close> and \<^verbatim>\<open>pop(0)\<close>; no handler can run between the two.)
\<close>

theorem history_store_bounded_fifo:
  "length (store (run cfg qs init_state)) \<le> 100
   \<and> (length (store s) \<le> 100 \<longrightarrow>
        length (store (snd (handle_request cfg q s))) \<le> 100
      \<and> (\<forall>msgs rid. inference_call cfg e m = Inr (msgs, rid) \<longrightarrow>
            store (snd (chat cfg e m s)) =
              (if length (store s) < 100 then store s else tl (store s))
                @ [exchange_of m (chat_response e msgs rid)])
      \<and> store (snd (handle_request cfg History s)) = store s
      \<and> store (snd (handle_request cfg Clear s)) = [])"
proof -
  have reach: "length (store (run cfg qs init_state)) \<le> 100"
    by (rule run_bounded) (simp add: init_store)
  have app: "store (snd (chat cfg e m s)) =
              (if length (store s) < 100 then store s else tl (store s))
                @ [exchange_of m (chat_response e msgs rid)]"
    if "length (store s) \<le> 100" and ok: "inference_call cfg e m = Inr (msgs, rid)" for msgs rid
  proof (cases "length (store s) < 100")
    case True
    then show ?thesis by (simp add: chat_success_store [OF ok])
  next
    case False
    then have "store s \<noteq> []" by auto
    with False show ?thesis by (simp add: chat_success_store [OF ok])
  qed
  have clr: "store (snd (handle_request cfg Clear s)) = []"
    by (simp add: clear_store)
  show ?thesis
    using reach app clr by (simp add: handle_request_bounded)
qed

theorem history_store_bounded_fifo_witness:
  "length (store full_state) = 100
   \<and> store (snd (chat cfg_off env_two hello full_state)) = replicate 99 hi_exchange @ [first_exchange]
   \<and> length (store (snd (chat cfg_off env_two hello full_state))) = 100
   \<and> store (snd (chat cfg_off env_two hello init_state)) = [first_exchange]"
proof -
  have full: "store full_state = old_exchange # replicate 99 hi_exchange"
    by (simp add: store_def full_state_def)
  have len: "length (store full_state) \<le> 100" "length (store init_state) \<le> 100"
    by (simp_all add: full init_store)
  show ?thesis
    using history_store_bounded_fifo [where cfg = cfg_off and s = full_state and e = env_two and m = hello]
      history_store_bounded_fifo [where cfg = cfg_off and s = init_state and e = env_two and m = hello]
      len chat_two
    by (simp add: full init_store)
qed

text \<open>
  Claim C3: after \<open>N\<close> chat calls from an empty store (the initial one, or any store
  that is empty, such as one just cleared), all of them successful, the list that
  \<^verbatim>\<open>GET /api/chat/history\<close> returns holds \<open>min N 100\<close> records: the exchanges of
  the last 100 calls in the order the calls completed, each made of the caller's
  message and the response that caller got; so all \<open>N\<close> of them when \<open>N\<close> is at
  most 100.
\<close>

theorem history_lists_last_hundred:
  assumes "store s0 = []"
    and "chats cfg rs s0 = (ps, s)"
    and "\<forall>p \<in> set ps. \<exists>response. p = Inr response"
  shows "length ps = length rs
       \<and> heap s (get_chat_history s) =
           drop (length rs - 100) (map (\<lambda>((e, m), p). exchange_of m (projr p)) (zip rs ps))
       \<and> length (heap s (get_chat_history s)) = min (length rs) 100
       \<and> handle_request cfg History s =
           (Inr (History_reply
              (drop (length rs - 100) (map (\<lambda>((e, m), p). exchange_of m (projr p)) (zip rs ps)))),
            s)"
proof -
  have ps: "ps = fst (chats cfg rs s0)" and s: "s = snd (chats cfg rs s0)"
    using assms(2) by simp_all
  have len: "length ps = length rs"
    by (simp add: ps chats_length)
  have "store s = (let ys = store s0 @ completed rs ps in drop (length ys - 100) ys)"
    unfolding ps s by (rule chats_store) (simp add: assms(1))
  also have "completed rs ps = map (\<lambda>((e, m), p). exchange_of m (projr p)) (zip rs ps)"
    by (rule completed_all_success [OF len assms(3)])
  finally have "store s =
      drop (length rs - 100) (map (\<lambda>((e, m), p). exchange_of m (projr p)) (zip rs ps))"
    by (simp add: assms(1) Let_def len)
  then show ?thesis
    using len by (simp add: store_def get_chat_history_def)
qed

theorem history_lists_last_hundred_witness:
  "store (run cfg_off [Chat env_hi hello, Clear] init_state) = []
   \<and> handle_request cfg_off History
       (snd (chats cfg_off [(env_two, hello), (env_hi, hello)]
              (run cfg_off [Chat env_hi hello, Clear] init_state)))
     = (Inr (History_reply [first_exchange, hi_exchange]),
        snd (chats cfg_off [(env_two, hello), (env_hi, hello)]
              (run cfg_off [Chat env_hi hello, Clear] init_state)))
   \<and> length (heap (snd (chats cfg_off (replicate 101 (env_hi, hello)) init_state))
       (get_chat_history (snd (chats cfg_off (replicate 101 (env_hi, hello)) init_state)))) = 100"
proof -
  let ?s0 = "run cfg_off [Chat env_hi hello, Clear] init_state"
  let ?rs = "[(env_two, hello), (env_hi, hello)]"
  let ?ps = "[Inr (chat_response env_two two_assistants None),
     Inr (chat_response env_hi
       [[''role'' \<mapsto> ''assistant'', ''content'' \<mapsto> ''hi there'']] (Some ''r1''))]"
  have e0: "store ?s0 = []"
    by (simp add: clear_store)
  have ps: "fst (chats cfg_off ?rs ?s0) = ?ps"
    by (simp add: chats_Cons chat_success_fst chat_hi chat_two del: chats.simps(2) run.simps)
  have h1: "chats cfg_off ?rs ?s0 = (?ps, snd (chats cfg_off ?rs ?s0))"
    using ps by (metis prod.collapse)
  have h2: "\<forall>p \<in> set ?ps. \<exists>response. p = Inr response"
    by simp
  let ?many = "replicate 101 (env_hi, hello)"
  have k1: "chats cfg_off ?many init_state =
      (fst (chats cfg_off ?many init_state), snd (chats cfg_off ?many init_state))"
    by simp
  have k2: "\<forall>p \<in> set (fst (chats cfg_off ?many init_state)). \<exists>response. p = Inr response"
    by (rule chats_all_success) (simp add: chat_hi)
  show ?thesis
    using e0 history_lists_last_hundred [OF e0 h1 h2]
      history_lists_last_hundred [OF init_store k1 k2]
    by (simp add: chat_hi chat_two del: run.simps chats.simps)
qed

subsection \<open>Clearing and reading the history\<close>

text \<open>
  Claim C8: \<^verbatim>\<open>DELETE /api/chat/history\<close> never fails and answers
  \<^verbatim>\<open>Chat history cleared\<close>; whatever the store held, it is empty afterwards and a
  read that follows returns the empty list; on an empty store the content of the
  store is what it was, and no external call is made.
\<close>

theorem clear_empties_store:
  "fst (clear_chat_history s) = ''Chat history cleared''
   \<and> handle_request cfg Clear s = (Inr (Message_reply ''Chat history cleared''), snd (clear_chat_history s))
   \<and> store (snd (clear_chat_history s)) = []
   \<and> heap (snd (clear_chat_history s)) (get_chat_history (snd (clear_chat_history s))) = []
   \<and> (store s = [] \<longrightarrow> store (snd (clear_chat_history s)) = store s)
   \<and> calls (snd (clear_chat_history s)) = calls s"
  by (simp add: clear_chat_history_def store_def get_chat_history_def)

theorem clear_empties_store_witness:
  "store full_state = old_exchange # replicate 99 hi_exchange
   \<and> store (snd (clear_chat_history full_state)) = []
   \<and> store init_state = []
   \<and> store (snd (clear_chat_history init_state)) = store init_state"
  using clear_empties_store [of full_state cfg_off] clear_empties_store [of init_state cfg_off]
  by (simp add: store_def full_state_def init_state_def)

text \<open>
  Claim C9: what \<^verbatim>\<open>GET /api/chat/history\<close> returns is a snapshot. In any sequence
  of requests, the answer to a read is the list of records the store holds when the
  read is handled, oldest first, whatever requests come after it: a later chat call
  or a later clear changes the store and the answers to later reads, and not the
  answer already given. The read itself leaves the state as it is.
\<close>

theorem history_reply_is_snapshot:
  "responses cfg (pre @ History # post) s ! length pre
     = Inr (History_reply (store (run cfg pre s)))
   \<and> handle_request cfg History s = (Inr (History_reply (store s)), s)
   \<and> run cfg (pre @ History # post) s = run cfg (pre @ post) s"
proof -
  have "responses cfg (pre @ History # post) s ! length pre
      = (responses cfg pre s @ responses cfg (History # post) (run cfg pre s)) ! length pre"
    by (simp only: responses_append)
  also have "\<dots> = responses cfg (History # post) (run cfg pre s) ! 0"
    using responses_length [of cfg pre s] by (simp add: nth_append)
  also have "\<dots> = Inr (History_reply (store (run cfg pre s)))"
    by (simp add: store_def get_chat_history_def)
  finally have first: "responses cfg (pre @ History # post) s ! length pre
      = Inr (History_reply (store (run cfg pre s)))" .
  have same: "run cfg (pre @ History # post) s = run cfg (pre @ post) s"
    by (simp add: run_append)
  show ?thesis
    using first same by (simp add: store_def get_chat_history_def)
qed

theorem history_reply_is_snapshot_witness:
  "responses cfg_off [History, Chat env_hi hello, History, Clear, History] init_state
     = [Inr (History_reply []),
        Inr (Chat_reply \<lparr>response_message = ''hi there'',
                          response_timestamp = ''2024-01-01T00:00:00'',
                          response_request_id = Some ''r1''\<rparr>),
        Inr (History_reply [hi_exchange]),
        Inr (Message_reply ''Chat history cleared''),
        Inr (History_reply [])]"
proof -
  let ?qs = "[History, Chat env_hi hello, History, Clear, History]"
  have first: "responses cfg_off ?qs init_state ! 0 = Inr (History_reply [])"
    using history_reply_is_snapshot [of cfg_off "[]" "[Chat env_hi hello, History, Clear, History]" init_state]
    by (simp add: init_store del: responses.simps)
  have len: "length (responses cfg_off ?qs init_state) = 5"
    by (simp add: responses_length del: responses.simps)
  have rest: "tl (responses cfg_off ?qs init_state)
     = [Inr (Chat_reply \<lparr>response_message = ''hi there'',
                          response_timestamp = ''2024-01-01T00:00:00'',
                          response_request_id = Some ''r1''\<rparr>),
        Inr (History_reply [hi_exchange]),
        Inr (Message_reply ''Chat history cleared''),
        Inr (History_reply [])]"
    by (simp add: chat_def inference_call_def env_hi_def chat_response_def
        is_assistant_reply_def Let_def store_def list_append_def list_pop0_def
        get_chat_history_def clear_chat_history_def init_state_def exchange_of_def
        hi_exchange_def hello_def)
  from len obtain x xs where xs: "responses cfg_off ?qs init_state = x # xs"
    by (cases "responses cfg_off ?qs init_state") auto
  with first rest show ?thesis by simp
qed

end
